theory Spec2Isabelle
  imports Main
begin

section \<open>The clinic schema\<close>

text \<open>
  The scheduling logic of the repository is the relational schema \<^verbatim>\<open>clinic_management\<close>
  of \<^verbatim>\<open>src/main.py\<close>: four tables with \<^verbatim>\<open>NOT NULL\<close> columns, \<^verbatim>\<open>UNIQUE\<close> keys,
  enumerated columns, column defaults and foreign keys with \<^verbatim>\<open>ON DELETE CASCADE\<close> or
  \<^verbatim>\<open>ON DELETE SET NULL\<close>. A table is a list of rows keyed by its \<^verbatim>\<open>AUTO_INCREMENT\<close>
  primary key; every other column holds an optional value (\<open>None\<close> is SQL \<^verbatim>\<open>NULL\<close>), and
  the constraints of the schema are checks made when a row is written.

  The columns \<^verbatim>\<open>created_at\<close> and \<^verbatim>\<open>updated_at\<close> are filled from the server clock and
  take part in no constraint; they are left out. Column widths (\<^verbatim>\<open>VARCHAR(50)\<close>) are
  not modelled either.
\<close>

datatype gender = Male | Female | Other

datatype status = Scheduled | Completed | Cancelled | No_show

type_synonym sql_date = "nat \<times> nat \<times> nat"

type_synonym sql_time = "nat \<times> nat \<times> nat"

record patient =
  p_first_name :: "string option"
  p_last_name :: "string option"
  date_of_birth :: "sql_date option"
  p_gender :: "gender option"
  p_phone_number :: "string option"
  p_email :: "string option"
  address :: "string option"

record doctor =
  d_first_name :: "string option"
  d_last_name :: "string option"
  specialization :: "string option"
  d_phone_number :: "string option"
  d_email :: "string option"
  license_number :: "string option"
  available :: "bool option"

record appointment =
  a_patient_id :: "nat option"
  a_doctor_id :: "nat option"
  appointment_date :: "sql_date option"
  appointment_time :: "sql_time option"
  status :: "status option"
  reason :: "string option"
  a_notes :: "string option"

record medical_record =
  m_patient_id :: "nat option"
  m_doctor_id :: "nat option"
  m_appointment_id :: "nat option"
  diagnosis :: "string option"
  prescription :: "string option"
  m_notes :: "string option"
  record_date :: "sql_date option"

text \<open>The database: the four tables and the next value of each \<^verbatim>\<open>AUTO_INCREMENT\<close> key.\<close>

record db =
  patients :: "(nat \<times> patient) list"
  doctors :: "(nat \<times> doctor) list"
  appointments :: "(nat \<times> appointment) list"
  medical_records :: "(nat \<times> medical_record) list"
  next_patient_id :: nat
  next_doctor_id :: nat
  next_appointment_id :: nat
  next_record_id :: nat

definition init_db :: db where
  "init_db = \<lparr>patients = [], doctors = [], appointments = [], medical_records = [],
     next_patient_id = 1, next_doctor_id = 1, next_appointment_id = 1, next_record_id = 1\<rparr>"

text \<open>
  A statement that violates a constraint is rejected as a whole. The rejections are named
  after the error taxonomy of the design: a missing \<^verbatim>\<open>NOT NULL\<close> value is a
  \<open>ValidationError\<close>, a failed foreign key (or an absent row addressed by its key) is
  \<open>NotFound\<close>, a duplicate in a \<^verbatim>\<open>UNIQUE\<close> column of \<^verbatim>\<open>patients\<close> or \<^verbatim>\<open>doctors\<close> is a
  \<open>ConflictError\<close>, and a duplicate in \<^verbatim>\<open>unique_doctor_timeslot\<close> is \<open>SlotTaken\<close>.
  The schema has no constraint that would give rise to \<open>InvalidTransition\<close> or
  \<open>InvalidState\<close>.
\<close>

datatype error =
  NotFound | ValidationError | ConflictError | SlotTaken | InvalidTransition | InvalidState

subsection \<open>Constraints\<close>

text \<open>The \<^verbatim>\<open>NOT NULL\<close> columns of each table (lines 9-12, 23-25 and 28, 37-40, 54-55 and 60).\<close>

definition patients_not_null :: "patient \<Rightarrow> bool" where
  "patients_not_null p \<longleftrightarrow>
     p_first_name p \<noteq> None \<and> p_last_name p \<noteq> None \<and> date_of_birth p \<noteq> None \<and> p_gender p \<noteq> None"

definition doctors_not_null :: "doctor \<Rightarrow> bool" where
  "doctors_not_null d \<longleftrightarrow>
     d_first_name d \<noteq> None \<and> d_last_name d \<noteq> None \<and> specialization d \<noteq> None \<and>
     license_number d \<noteq> None"

definition appointments_not_null :: "appointment \<Rightarrow> bool" where
  "appointments_not_null a \<longleftrightarrow>
     a_patient_id a \<noteq> None \<and> a_doctor_id a \<noteq> None \<and> appointment_date a \<noteq> None \<and>
     appointment_time a \<noteq> None"

definition medical_records_not_null :: "medical_record \<Rightarrow> bool" where
  "medical_records_not_null m \<longleftrightarrow>
     m_patient_id m \<noteq> None \<and> m_doctor_id m \<noteq> None \<and> record_date m \<noteq> None"

text \<open>
  A \<^verbatim>\<open>UNIQUE\<close> column: a new value collides when it is present and some row already holds
  it. \<^verbatim>\<open>NULL\<close> collides with nothing.
\<close>

definition collides :: "('r \<Rightarrow> 'v option) \<Rightarrow> 'r \<Rightarrow> (nat \<times> 'r) list \<Rightarrow> bool" where
  "collides col r rows \<longleftrightarrow> col r \<noteq> None \<and> col r \<in> set (map (col \<circ> snd) rows)"

definition patient_conflict :: "patient \<Rightarrow> (nat \<times> patient) list \<Rightarrow> bool" where
  "patient_conflict p rows \<longleftrightarrow> collides p_phone_number p rows \<or> collides p_email p rows"

definition doctor_conflict :: "doctor \<Rightarrow> (nat \<times> doctor) list \<Rightarrow> bool" where
  "doctor_conflict d rows \<longleftrightarrow>
     collides d_phone_number d rows \<or> collides d_email d rows \<or> collides license_number d rows"

text \<open>A foreign key: a present value must be the key of a row of the referenced table.\<close>

definition references :: "nat option \<Rightarrow> (nat \<times> 'r) list \<Rightarrow> bool" where
  "references k rows \<longleftrightarrow> (case k of None \<Rightarrow> True | Some i \<Rightarrow> i \<in> set (map fst rows))"

text \<open>
  The key \<^verbatim>\<open>unique_doctor_timeslot (doctor_id, appointment_date, appointment_time)\<close> of
  line 48. Its index is the ledger of occupied slots; the status column is not part of it.
\<close>

type_synonym slot = "nat option \<times> sql_date option \<times> sql_time option"

definition slot_of :: "appointment \<Rightarrow> slot" where
  "slot_of a = (a_doctor_id a, appointment_date a, appointment_time a)"

definition slot_index :: "(nat \<times> appointment) list \<Rightarrow> slot list" where
  "slot_index rows = map (slot_of \<circ> snd) rows"

definition slot_ledger :: "db \<Rightarrow> slot list" where
  "slot_ledger s = slot_index (appointments s)"

definition unique_doctor_timeslot :: "(nat \<times> appointment) list \<Rightarrow> bool" where
  "unique_doctor_timeslot rows \<longleftrightarrow> distinct (slot_index rows)"

text \<open>Column defaults (lines 29 and 41).\<close>

definition status_default :: "status option" where
  "status_default = Some Scheduled"

definition available_default :: "bool option" where
  "available_default = Some True"

subsection \<open>Patients and doctors\<close>

text \<open>\<^verbatim>\<open>INSERT INTO patients\<close>: the row gets the next key.\<close>

definition register_patient :: "db \<Rightarrow> patient \<Rightarrow> error + (db \<times> nat \<times> patient)" where
  "register_patient s p =
     (if \<not> patients_not_null p then Inl ValidationError
      else if patient_conflict p (patients s) then Inl ConflictError
      else Inr (s\<lparr>patients := patients s @ [(next_patient_id s, p)],
                  next_patient_id := Suc (next_patient_id s)\<rparr>,
                (next_patient_id s, p)))"

definition register_doctor :: "db \<Rightarrow> doctor \<Rightarrow> error + (db \<times> nat \<times> doctor)" where
  "register_doctor s d =
     (if \<not> doctors_not_null d then Inl ValidationError
      else if doctor_conflict d (doctors s) then Inl ConflictError
      else Inr (s\<lparr>doctors := doctors s @ [(next_doctor_id s, d)],
                  next_doctor_id := Suc (next_doctor_id s)\<rparr>,
                (next_doctor_id s, d)))"

text \<open>
  \<^verbatim>\<open>UPDATE ... WHERE patient_id = i\<close>: the new values are checked against every other
  row. Addressing a key that is not in the table is reported as \<open>NotFound\<close>.
\<close>

definition others :: "nat \<Rightarrow> (nat \<times> 'r) list \<Rightarrow> (nat \<times> 'r) list" where
  "others i rows = filter (\<lambda>(j, r). j \<noteq> i) rows"

definition put_row :: "nat \<Rightarrow> 'r \<Rightarrow> (nat \<times> 'r) list \<Rightarrow> (nat \<times> 'r) list" where
  "put_row i r rows = map (\<lambda>(j, q). if j = i then (j, r) else (j, q)) rows"

definition update_patient :: "db \<Rightarrow> nat \<Rightarrow> patient \<Rightarrow> error + db" where
  "update_patient s i p =
     (if i \<notin> set (map fst (patients s)) then Inl NotFound
      else if \<not> patients_not_null p then Inl ValidationError
      else if patient_conflict p (others i (patients s)) then Inl ConflictError
      else Inr (s\<lparr>patients := put_row i p (patients s)\<rparr>))"

definition update_doctor :: "db \<Rightarrow> nat \<Rightarrow> doctor \<Rightarrow> error + db" where
  "update_doctor s i d =
     (if i \<notin> set (map fst (doctors s)) then Inl NotFound
      else if \<not> doctors_not_null d then Inl ValidationError
      else if doctor_conflict d (others i (doctors s)) then Inl ConflictError
      else Inr (s\<lparr>doctors := put_row i d (doctors s)\<rparr>))"

subsection \<open>Appointments\<close>

text \<open>
  \<^verbatim>\<open>INSERT INTO appointments\<close>: \<^verbatim>\<open>NOT NULL\<close> columns, then the two foreign keys, then
  the unique key.
\<close>

definition insert_appointment :: "db \<Rightarrow> appointment \<Rightarrow> error + (db \<times> nat \<times> appointment)" where
  "insert_appointment s a =
     (if \<not> appointments_not_null a then Inl ValidationError
      else if \<not> references (a_patient_id a) (patients s) \<or>
              \<not> references (a_doctor_id a) (doctors s) then Inl NotFound
      else if slot_of a \<in> set (slot_ledger s) then Inl SlotTaken
      else Inr (s\<lparr>appointments := appointments s @ [(next_appointment_id s, a)],
                  next_appointment_id := Suc (next_appointment_id s)\<rparr>,
                (next_appointment_id s, a)))"

text \<open>
  Booking inserts a row that names patient, doctor, date, time and reason; the status
  column is not supplied and takes its default.
\<close>

definition book ::
  "db \<Rightarrow> nat \<Rightarrow> nat \<Rightarrow> sql_date \<Rightarrow> sql_time \<Rightarrow> string option \<Rightarrow> error + (db \<times> nat \<times> appointment)" where
  "book s pid did dt tm why =
     insert_appointment s
       \<lparr>a_patient_id = Some pid, a_doctor_id = Some did, appointment_date = Some dt,
        appointment_time = Some tm, status = status_default, reason = why, a_notes = None\<rparr>"

text \<open>
  \<^verbatim>\<open>UPDATE appointments SET status = st WHERE appointment_id = i\<close>. The column is an
  \<^verbatim>\<open>ENUM\<close>: any of the four values may be written over any other. The slot columns are
  not touched, so the index of \<^verbatim>\<open>unique_doctor_timeslot\<close> is as before.
\<close>

definition set_status :: "nat \<Rightarrow> status \<Rightarrow> nat \<times> appointment \<Rightarrow> nat \<times> appointment" where
  "set_status i st row = (if fst row = i then (fst row, (snd row)\<lparr>status := Some st\<rparr>) else row)"

definition transition :: "db \<Rightarrow> nat \<Rightarrow> status \<Rightarrow> error + db" where
  "transition s i st =
     (if i \<notin> set (map fst (appointments s)) then Inl NotFound
      else Inr (s\<lparr>appointments := map (set_status i st) (appointments s)\<rparr>))"

definition cancel :: "db \<Rightarrow> nat \<Rightarrow> error + db" where
  "cancel s i = transition s i Cancelled"

subsection \<open>Medical records\<close>

text \<open>
  \<^verbatim>\<open>INSERT INTO medical_records\<close>: \<^verbatim>\<open>NOT NULL\<close> columns, then the three foreign keys;
  \<^verbatim>\<open>appointment_id\<close> may be \<^verbatim>\<open>NULL\<close>.
\<close>

definition create_medical_record ::
  "db \<Rightarrow> medical_record \<Rightarrow> error + (db \<times> nat \<times> medical_record)" where
  "create_medical_record s m =
     (if \<not> medical_records_not_null m then Inl ValidationError
      else if \<not> references (m_patient_id m) (patients s) \<or>
              \<not> references (m_doctor_id m) (doctors s) \<or>
              \<not> references (m_appointment_id m) (appointments s) then Inl NotFound
      else Inr (s\<lparr>medical_records := medical_records s @ [(next_record_id s, m)],
                  next_record_id := Suc (next_record_id s)\<rparr>,
                (next_record_id s, m)))"

text \<open>
  A record made from an appointment copies the appointment's patient and doctor columns and
  points at the appointment. The schema puts no condition on the appointment's status.
\<close>

definition create_from_appointment ::
  "db \<Rightarrow> nat \<Rightarrow> string option \<Rightarrow> string option \<Rightarrow> string option \<Rightarrow> sql_date \<Rightarrow>
     error + (db \<times> nat \<times> medical_record)" where
  "create_from_appointment s i diag presc nts dt =
     (case map_of (appointments s) i of
        None \<Rightarrow> Inl NotFound
      | Some a \<Rightarrow>
          create_medical_record s
            \<lparr>m_patient_id = a_patient_id a, m_doctor_id = a_doctor_id a,
             m_appointment_id = Some i, diagnosis = diag, prescription = presc,
             m_notes = nts, record_date = Some dt\<rparr>)"

subsection \<open>Deletion and its cascades\<close>

text \<open>
  \<^verbatim>\<open>ON DELETE SET NULL\<close> (line 64): a record pointing at a deleted appointment keeps
  all its columns but \<^verbatim>\<open>appointment_id\<close>.
\<close>

definition detach :: "nat list \<Rightarrow> nat \<times> medical_record \<Rightarrow> nat \<times> medical_record" where
  "detach gone row =
     (case m_appointment_id (snd row) of
        None \<Rightarrow> row
      | Some k \<Rightarrow> if k \<in> set gone then (fst row, (snd row)\<lparr>m_appointment_id := None\<rparr>) else row)"

definition delete_appointment :: "db \<Rightarrow> nat \<Rightarrow> db" where
  "delete_appointment s i =
     s\<lparr>appointments := others i (appointments s),
       medical_records := map (detach [i]) (medical_records s)\<rparr>"

text \<open>
  \<^verbatim>\<open>ON DELETE CASCADE\<close> (lines 46-47 and 62-63): deleting a patient or a doctor deletes
  the appointments and the medical records that reference the deleted row; the records
  that stay and point at one of the deleted appointments are detached.
\<close>

definition patient_appointments :: "db \<Rightarrow> nat \<Rightarrow> nat list" where
  "patient_appointments s i = map fst (filter (\<lambda>(j, a). a_patient_id a = Some i) (appointments s))"

definition delete_patient :: "db \<Rightarrow> nat \<Rightarrow> db" where
  "delete_patient s i =
     (let gone = patient_appointments s i in
      s\<lparr>patients := others i (patients s),
        appointments := filter (\<lambda>(j, a). a_patient_id a \<noteq> Some i) (appointments s),
        medical_records :=
          map (detach gone) (filter (\<lambda>(j, m). m_patient_id m \<noteq> Some i) (medical_records s))\<rparr>)"

definition doctor_appointments :: "db \<Rightarrow> nat \<Rightarrow> nat list" where
  "doctor_appointments s i = map fst (filter (\<lambda>(j, a). a_doctor_id a = Some i) (appointments s))"

definition delete_doctor :: "db \<Rightarrow> nat \<Rightarrow> db" where
  "delete_doctor s i =
     (let gone = doctor_appointments s i in
      s\<lparr>doctors := others i (doctors s),
        appointments := filter (\<lambda>(j, a). a_doctor_id a \<noteq> Some i) (appointments s),
        medical_records :=
          map (detach gone) (filter (\<lambda>(j, m). m_doctor_id m \<noteq> Some i) (medical_records s))\<rparr>)"

subsection \<open>Runs\<close>

datatype operation =
    RegisterPatient patient
  | UpdatePatient nat patient
  | DeletePatient nat
  | RegisterDoctor doctor
  | UpdateDoctor nat doctor
  | DeleteDoctor nat
  | Book nat nat sql_date sql_time "string option"
  | Transition nat status
  | Cancel nat
  | DeleteAppointment nat
  | CreateMedicalRecord medical_record
  | CreateFromAppointment nat "string option" "string option" "string option" sql_date

definition committed :: "error + (db \<times> 'a) \<Rightarrow> error + db" where
  "committed r = (case r of Inl e \<Rightarrow> Inl e | Inr (s, x) \<Rightarrow> Inr s)"

fun exec :: "db \<Rightarrow> operation \<Rightarrow> error + db" where
  "exec s (RegisterPatient p) = committed (register_patient s p)"
| "exec s (UpdatePatient i p) = update_patient s i p"
| "exec s (DeletePatient i) = Inr (delete_patient s i)"
| "exec s (RegisterDoctor d) = committed (register_doctor s d)"
| "exec s (UpdateDoctor i d) = update_doctor s i d"
| "exec s (DeleteDoctor i) = Inr (delete_doctor s i)"
| "exec s (Book pid did dt tm why) = committed (book s pid did dt tm why)"
| "exec s (Transition i st) = transition s i st"
| "exec s (Cancel i) = cancel s i"
| "exec s (DeleteAppointment i) = Inr (delete_appointment s i)"
| "exec s (CreateMedicalRecord m) = committed (create_medical_record s m)"
| "exec s (CreateFromAppointment i diag presc nts dt) =
     committed (create_from_appointment s i diag presc nts dt)"

text \<open>A rejected statement leaves the database as it was.\<close>

definition apply_op :: "db \<Rightarrow> operation \<Rightarrow> db" where
  "apply_op s x = (case exec s x of Inl e \<Rightarrow> s | Inr s' \<Rightarrow> s')"

definition run :: "db \<Rightarrow> operation list \<Rightarrow> db" where
  "run s xs = foldl apply_op s xs"

inductive reachable :: "db \<Rightarrow> bool" where
  start: "reachable init_db"
| step: "reachable s \<Longrightarrow> exec s x = Inr s' \<Longrightarrow> reachable s'"

definition statuses :: "db \<Rightarrow> status option list" where
  "statuses s = map (status \<circ> snd) (appointments s)"

subsection \<open>The constraints as a property of the database\<close>

text \<open>
  The foreign keys and \<^verbatim>\<open>NOT NULL\<close> columns of \<^verbatim>\<open>appointments\<close> and
  \<^verbatim>\<open>medical_records\<close>, the key \<^verbatim>\<open>unique_doctor_timeslot\<close> and the primary key of
  \<^verbatim>\<open>appointments\<close>, read as properties of a whole database.
\<close>

definition appointment_ok :: "db \<Rightarrow> appointment \<Rightarrow> bool" where
  "appointment_ok s a \<longleftrightarrow>
     appointments_not_null a \<and> references (a_patient_id a) (patients s) \<and>
     references (a_doctor_id a) (doctors s)"

definition record_ok :: "db \<Rightarrow> medical_record \<Rightarrow> bool" where
  "record_ok s m \<longleftrightarrow>
     medical_records_not_null m \<and> references (m_patient_id m) (patients s) \<and>
     references (m_doctor_id m) (doctors s) \<and> references (m_appointment_id m) (appointments s)"

definition consistent :: "db \<Rightarrow> bool" where
  "consistent s \<longleftrightarrow>
     unique_doctor_timeslot (appointments s) \<and>
     list_all (appointment_ok s \<circ> snd) (appointments s) \<and>
     list_all (record_ok s \<circ> snd) (medical_records s)"


subsection \<open>A small clinic\<close>

text \<open>
  Patients and doctors, most of them without phone number or email, one visit and two
  medical records that point at it.
\<close>

definition alice :: patient where
  "alice = \<lparr>p_first_name = Some ''Alice'', p_last_name = Some ''Otieno'',
     date_of_birth = Some (1990, 5, 17), p_gender = Some Female, p_phone_number = None,
     p_email = None, address = None\<rparr>"

definition brian :: patient where
  "brian = \<lparr>p_first_name = Some ''Brian'', p_last_name = Some ''Mwangi'',
     date_of_birth = Some (1984, 11, 2), p_gender = Some Male, p_phone_number = None,
     p_email = None, address = None\<rparr>"

definition carol :: patient where
  "carol = \<lparr>p_first_name = Some ''Carol'', p_last_name = Some ''Wanjiku'',
     date_of_birth = Some (1975, 1, 30), p_gender = Some Other,
     p_phone_number = Some ''0700111222'', p_email = Some ''carol@example.org'',
     address = None\<rparr>"

definition dr_kamau :: doctor where
  "dr_kamau = \<lparr>d_first_name = Some ''Grace'', d_last_name = Some ''Kamau'',
     specialization = Some ''Cardiology'', d_phone_number = None, d_email = None,
     license_number = Some ''L-100'', available = available_default\<rparr>"

definition dr_njeri :: doctor where
  "dr_njeri = \<lparr>d_first_name = Some ''Paul'', d_last_name = Some ''Njeri'',
     specialization = Some ''Dermatology'', d_phone_number = None, d_email = None,
     license_number = Some ''L-200'', available = available_default\<rparr>"

definition visit :: appointment where
  "visit = \<lparr>a_patient_id = Some 1, a_doctor_id = Some 1, appointment_date = Some (2024, 3, 1),
     appointment_time = Some (9, 0, 0), status = Some Scheduled, reason = None, a_notes = None\<rparr>"

definition own_record :: medical_record where
  "own_record = \<lparr>m_patient_id = Some 1, m_doctor_id = Some 1, m_appointment_id = Some 1,
     diagnosis = Some ''Angina'', prescription = None, m_notes = None,
     record_date = Some (2024, 3, 1)\<rparr>"

definition second_opinion :: medical_record where
  "second_opinion = \<lparr>m_patient_id = Some 2, m_doctor_id = Some 2, m_appointment_id = Some 1,
     diagnosis = None, prescription = None, m_notes = Some ''Second opinion'',
     record_date = Some (2024, 3, 2)\<rparr>"

definition clinic :: "operation list" where
  "clinic = [RegisterPatient alice, RegisterPatient brian, RegisterDoctor dr_kamau,
     RegisterDoctor dr_njeri]"

definition booked :: "operation list" where
  "booked = clinic @ [Book 1 1 (2024, 3, 1) (9, 0, 0) None]"

definition treated :: "operation list" where
  "treated = booked @ [Transition 1 Completed,
     CreateFromAppointment 1 (Some ''Angina'') None None (2024, 3, 1),
     CreateMedicalRecord second_opinion]"

section \<open>Properties of the operations\<close>

lemmas eval_defs = run_def apply_op_def committed_def init_db_def
  register_patient_def register_doctor_def update_patient_def update_doctor_def
  insert_appointment_def book_def transition_def cancel_def create_medical_record_def
  create_from_appointment_def delete_appointment_def delete_patient_def delete_doctor_def
  detach_def set_status_def others_def put_row_def
  patients_not_null_def doctors_not_null_def appointments_not_null_def medical_records_not_null_def
  collides_def patient_conflict_def doctor_conflict_def references_def
  slot_of_def slot_index_def slot_ledger_def unique_doctor_timeslot_def
  status_default_def available_default_def statuses_def
  patient_appointments_def doctor_appointments_def
  alice_def brian_def carol_def dr_kamau_def dr_njeri_def visit_def own_record_def
  second_opinion_def clinic_def booked_def treated_def

lemma slot_index_set_status: "slot_index (map (set_status i st) rows) = slot_index rows"
  by (induction rows) (auto simp: slot_index_def set_status_def slot_of_def)

lemma fst_set_status: "fst (set_status i st row) = fst row"
  by (simp add: set_status_def)

lemma keys_set_status: "map fst (map (set_status i st) rows) = map fst rows"
  by (simp add: fst_set_status comp_def)


lemma slot_index_append: "slot_index (xs @ ys) = slot_index xs @ slot_index ys"
  by (simp add: slot_index_def)


lemma book_Inr:
  assumes "book s pid did dt tm why = Inr (s', i, a)"
  shows "i = next_appointment_id s"
    and "a = \<lparr>a_patient_id = Some pid, a_doctor_id = Some did, appointment_date = Some dt,
        appointment_time = Some tm, status = status_default, reason = why, a_notes = None\<rparr>"
    and "s' = s\<lparr>appointments := appointments s @ [(i, a)],
                  next_appointment_id := Suc (next_appointment_id s)\<rparr>"
    and "pid \<in> set (map fst (patients s))"
    and "did \<in> set (map fst (doctors s))"
    and "(Some did, Some dt, Some tm) \<notin> set (slot_ledger s)"
  using assms
  by (auto simp: book_def insert_appointment_def references_def slot_of_def split: if_splits)


lemma keys_put_row: "map fst (put_row i r rows) = map fst rows"
  by (induction rows) (auto simp: put_row_def)

lemma key_set_put_row: "fst ` set (put_row i r rows) = fst ` set rows"
  using keys_put_row[of i r rows] by (metis list.set_map)

lemma snd_set_status_cols:
  "a_patient_id (snd (set_status i st row)) = a_patient_id (snd row)"
  "a_doctor_id (snd (set_status i st row)) = a_doctor_id (snd row)"
  "appointment_date (snd (set_status i st row)) = appointment_date (snd row)"
  "appointment_time (snd (set_status i st row)) = appointment_time (snd row)"
  by (simp_all add: set_status_def)

lemma fst_detach: "fst (detach gone row) = fst row"
  by (simp add: detach_def split: option.splits)

lemma detach_cols:
  "m_patient_id (snd (detach gone row)) = m_patient_id (snd row)"
  "m_doctor_id (snd (detach gone row)) = m_doctor_id (snd row)"
  "record_date (snd (detach gone row)) = record_date (snd row)"
  by (simp_all add: detach_def split: option.splits)

lemma detach_ref:
  "m_appointment_id (snd (detach gone row)) =
     (case m_appointment_id (snd row) of None \<Rightarrow> None
      | Some k \<Rightarrow> if k \<in> set gone then None else Some k)"
  by (simp add: detach_def split: option.splits)

lemma references_mono:
  "references k rows \<Longrightarrow> fst ` set rows \<subseteq> fst ` set rows' \<Longrightarrow> references k rows'"
  by (auto simp: references_def split: option.splits)

lemma distinct_slot_index_filter:
  "distinct (slot_index rows) \<Longrightarrow> distinct (slot_index (filter P rows))"
  by (simp add: slot_index_def distinct_map_filter)

lemma exec_unique:
  assumes "exec s x = Inr s'" and "unique_doctor_timeslot (appointments s)"
  shows "unique_doctor_timeslot (appointments s')"
proof (cases x)
  case (Book pid did dt tm why)
  with assms(1) obtain i a where b: "book s pid did dt tm why = Inr (s', i, a)"
    by (auto simp: committed_def split: sum.splits)
  from book_Inr(2)[OF b] have sl: "slot_of a = (Some did, Some dt, Some tm)" by (simp add: slot_of_def)
  from book_Inr(3)[OF b] book_Inr(6)[OF b] sl assms(2) show ?thesis
    by (simp add: unique_doctor_timeslot_def slot_index_append slot_ledger_def)
      (simp add: slot_index_def)
next
  case (Transition i st)
  with assms show ?thesis
    by (auto simp: transition_def unique_doctor_timeslot_def slot_index_set_status split: if_splits)
next
  case (Cancel i)
  with assms show ?thesis
    by (auto simp: cancel_def transition_def unique_doctor_timeslot_def slot_index_set_status
        split: if_splits)
next
  case (DeletePatient i)
  with assms show ?thesis
    by (auto simp: delete_patient_def patient_appointments_def Let_def unique_doctor_timeslot_def
        distinct_slot_index_filter)
next
  case (DeleteDoctor i)
  with assms show ?thesis
    by (auto simp: delete_doctor_def doctor_appointments_def Let_def unique_doctor_timeslot_def
        distinct_slot_index_filter)
next
  case (DeleteAppointment i)
  with assms show ?thesis
    by (auto simp: delete_appointment_def others_def unique_doctor_timeslot_def
        distinct_slot_index_filter)
qed (use assms in \<open>auto simp: committed_def register_patient_def register_doctor_def
        update_patient_def update_doctor_def create_medical_record_def create_from_appointment_def
        split: sum.splits if_splits option.splits\<close>)

lemma keys_others: "fst ` set (others i rows) = fst ` set rows - {i}"
  by (force simp: others_def)

lemma references_others:
  "references (Some k) rows \<Longrightarrow> k \<noteq> i \<Longrightarrow> references (Some k) (others i rows)"
  by (simp add: references_def keys_others)

lemma references_filter_split:
  "references (Some k) rows \<Longrightarrow> k \<notin> set (map fst (filter P rows)) \<Longrightarrow>
   references (Some k) (filter (\<lambda>row. \<not> P row) rows)"
  by (force simp: references_def)

lemma appointment_ok_cong:
  "appointment_ok s a \<Longrightarrow> fst ` set (patients s) \<subseteq> fst ` set (patients s') \<Longrightarrow>
   fst ` set (doctors s) \<subseteq> fst ` set (doctors s') \<Longrightarrow> appointment_ok s' a"
  by (auto simp: appointment_ok_def elim: references_mono)

lemma appointment_ok_set_status:
  "appointment_ok s (snd (set_status i st row)) = appointment_ok s (snd row)"
  by (simp add: appointment_ok_def appointments_not_null_def snd_set_status_cols)

lemma exec_appointment_ok:
  assumes "exec s x = Inr s'" and "list_all (appointment_ok s \<circ> snd) (appointments s)"
  shows "list_all (appointment_ok s' \<circ> snd) (appointments s')"
proof (cases x)
  case (RegisterPatient p)
  with assms(1) have "appointments s' = appointments s" "doctors s' = doctors s"
    "fst ` set (patients s) \<subseteq> fst ` set (patients s')"
    by (auto simp: committed_def register_patient_def split: if_splits)
  with assms(2) show ?thesis
    by (simp add: list_all_iff) (metis appointment_ok_cong order_refl)
next
  case (RegisterDoctor d)
  with assms(1) have "appointments s' = appointments s" "patients s' = patients s"
    "fst ` set (doctors s) \<subseteq> fst ` set (doctors s')"
    by (auto simp: committed_def register_doctor_def split: if_splits)
  with assms(2) show ?thesis
    by (simp add: list_all_iff) (metis appointment_ok_cong order_refl)
next
  case (UpdatePatient i p)
  with assms(1) have "s' = s\<lparr>patients := put_row i p (patients s)\<rparr>"
    by (auto simp: update_patient_def split: if_splits)
  then have "appointments s' = appointments s" "doctors s' = doctors s"
    "fst ` set (patients s') = fst ` set (patients s)"
    by (simp_all add: key_set_put_row)
  with assms(2) show ?thesis
    by (simp add: list_all_iff) (metis appointment_ok_cong order_refl)
next
  case (UpdateDoctor i d)
  with assms(1) have "s' = s\<lparr>doctors := put_row i d (doctors s)\<rparr>"
    by (auto simp: update_doctor_def split: if_splits)
  then have "appointments s' = appointments s" "patients s' = patients s"
    "fst ` set (doctors s') = fst ` set (doctors s)"
    by (simp_all add: key_set_put_row)
  with assms(2) show ?thesis
    by (simp add: list_all_iff) (metis appointment_ok_cong order_refl)
next
  case (DeletePatient i)
  with assms(1) have s': "s' = delete_patient s i" by simp
  show ?thesis unfolding list_all_iff
  proof
    fix row assume "row \<in> set (appointments s')"
    with s' have r: "row \<in> set (appointments s)" "a_patient_id (snd row) \<noteq> Some i"
      by (auto simp: delete_patient_def patient_appointments_def Let_def)
    with assms(2) have ok: "appointment_ok s (snd row)" by (simp add: list_all_iff)
    then obtain p where p: "a_patient_id (snd row) = Some p"
      by (auto simp: appointment_ok_def appointments_not_null_def)
    with r ok have "references (Some p) (others i (patients s))"
      by (auto simp: appointment_ok_def intro: references_others)
    with ok p s' show "(appointment_ok s' \<circ> snd) row"
      by (simp add: appointment_ok_def delete_patient_def patient_appointments_def Let_def)
  qed
next
  case (DeleteDoctor i)
  with assms(1) have s': "s' = delete_doctor s i" by simp
  show ?thesis unfolding list_all_iff
  proof
    fix row assume "row \<in> set (appointments s')"
    with s' have r: "row \<in> set (appointments s)" "a_doctor_id (snd row) \<noteq> Some i"
      by (auto simp: delete_doctor_def doctor_appointments_def Let_def)
    with assms(2) have ok: "appointment_ok s (snd row)" by (simp add: list_all_iff)
    then obtain p where p: "a_doctor_id (snd row) = Some p"
      by (auto simp: appointment_ok_def appointments_not_null_def)
    with r ok have "references (Some p) (others i (doctors s))"
      by (auto simp: appointment_ok_def intro: references_others)
    with ok p s' show "(appointment_ok s' \<circ> snd) row"
      by (simp add: appointment_ok_def delete_doctor_def doctor_appointments_def Let_def)
  qed
next
  case (Book pid did dt tm why)
  with assms(1) obtain i a where b: "book s pid did dt tm why = Inr (s', i, a)"
    by (auto simp: committed_def split: sum.splits)
  note f = book_Inr[OF b]
  have "appointment_ok s a" using f(2,4,5)
    by (simp add: appointment_ok_def appointments_not_null_def references_def)
  moreover from f(3) have "appointment_ok s' = appointment_ok s"
    by (simp add: appointment_ok_def fun_eq_iff)
  moreover from f(3) have "appointments s' = appointments s @ [(i, a)]" by simp
  ultimately show ?thesis using assms(2) by simp
next
  case (Transition i st)
  with assms(1) have "s' = s\<lparr>appointments := map (set_status i st) (appointments s)\<rparr>"
    by (auto simp: transition_def split: if_splits)
  with assms(2) show ?thesis
    by (simp add: list_all_iff appointment_ok_set_status)
      (simp add: appointment_ok_def)
next
  case (Cancel i)
  with assms(1) have "s' = s\<lparr>appointments := map (set_status i Cancelled) (appointments s)\<rparr>"
    by (auto simp: cancel_def transition_def split: if_splits)
  with assms(2) show ?thesis
    by (simp add: list_all_iff appointment_ok_set_status)
      (simp add: appointment_ok_def)
next
  case (DeleteAppointment i)
  with assms show ?thesis
    by (fastforce simp: delete_appointment_def others_def list_all_iff appointment_ok_def)
next
  case (CreateMedicalRecord m)
  with assms show ?thesis
    by (fastforce simp: committed_def create_medical_record_def list_all_iff appointment_ok_def
        split: if_splits)
next
  case (CreateFromAppointment i diag presc nts dt)
  with assms show ?thesis
    by (fastforce simp: committed_def create_from_appointment_def create_medical_record_def
        list_all_iff appointment_ok_def split: if_splits option.splits)
qed

lemma record_ok_mono:
  "record_ok s m \<Longrightarrow> fst ` set (patients s) \<subseteq> fst ` set (patients s') \<Longrightarrow>
   fst ` set (doctors s) \<subseteq> fst ` set (doctors s') \<Longrightarrow>
   fst ` set (appointments s) \<subseteq> fst ` set (appointments s') \<Longrightarrow> record_ok s' m"
  by (auto simp: record_ok_def elim: references_mono)

lemma records_ok_mono:
  assumes "list_all (record_ok s \<circ> snd) (medical_records s)"
    and "medical_records s' = medical_records s"
    and "fst ` set (patients s) \<subseteq> fst ` set (patients s')"
    and "fst ` set (doctors s) \<subseteq> fst ` set (doctors s')"
    and "fst ` set (appointments s) \<subseteq> fst ` set (appointments s')"
  shows "list_all (record_ok s' \<circ> snd) (medical_records s')"
  using assms by (simp add: list_all_iff) (metis record_ok_mono)

lemma key_set_set_status: "fst ` set (map (set_status i st) rows) = fst ` set rows"
  using keys_set_status[of i st rows] by (metis list.set_map)

lemma create_medical_record_Inr:
  assumes "create_medical_record s m = Inr (s', j, m')"
  shows "m' = m" and "record_ok s m"
    and "s' = s\<lparr>medical_records := medical_records s @ [(j, m)],
                  next_record_id := Suc (next_record_id s)\<rparr>"
    and "j = next_record_id s"
  using assms by (auto simp: create_medical_record_def record_ok_def split: if_splits)

lemma create_medical_record_ok:
  assumes "create_medical_record s m = Inr (s', j, m')"
    and "list_all (record_ok s \<circ> snd) (medical_records s)"
  shows "list_all (record_ok s' \<circ> snd) (medical_records s')"
proof -
  note f = create_medical_record_Inr[OF assms(1)]
  from f(3) have "record_ok s' = record_ok s" by (simp add: record_ok_def fun_eq_iff)
  moreover from f(3) have "medical_records s' = medical_records s @ [(j, m)]" by simp
  ultimately show ?thesis using assms(2) f(2) by simp
qed

lemma key_survives_filter:
  assumes "k \<in> fst ` set rows" and "k \<notin> fst ` set (filter P rows)"
    and "\<And>row. Q row \<longleftrightarrow> \<not> P row"
  shows "k \<in> fst ` set (filter Q rows)"
  using assms by force

lemma detached_reference:
  assumes "references (m_appointment_id (snd row)) rows"
    and "\<And>k. k \<in> fst ` set rows \<Longrightarrow> k \<notin> set gone \<Longrightarrow> k \<in> fst ` set rows'"
  shows "references (m_appointment_id (snd (detach gone row))) rows'"
  using assms by (auto simp: detach_ref references_def split: option.splits)

lemma delete_patient_record_ok:
  assumes "record_ok s (snd row)" and "m_patient_id (snd row) \<noteq> Some i"
  shows "record_ok (delete_patient s i)
           (snd (detach (map fst (filter (\<lambda>(j, a). a_patient_id a = Some i) (appointments s))) row))"
proof -
  let ?gone = "map fst (filter (\<lambda>(j, a). a_patient_id a = Some i) (appointments s))"
  let ?s = "delete_patient s i"
  from assms obtain p where p: "m_patient_id (snd row) = Some p" "p \<noteq> i"
    by (auto simp: record_ok_def medical_records_not_null_def)
  from assms(1) p have 1: "references (m_patient_id (snd row)) (patients ?s)"
    by (simp add: record_ok_def delete_patient_def patient_appointments_def Let_def references_others)
  from assms(1) have 2: "references (m_doctor_id (snd row)) (doctors ?s)"
    by (simp add: record_ok_def delete_patient_def patient_appointments_def Let_def)
  have 3: "references (m_appointment_id (snd (detach ?gone row))) (appointments ?s)"
  proof (rule detached_reference)
    from assms(1) show "references (m_appointment_id (snd row)) (appointments s)"
      by (simp add: record_ok_def)
  next
    fix k assume "k \<in> fst ` set (appointments s)" "k \<notin> set ?gone"
    then have "k \<in> fst ` set (filter (\<lambda>(j, a). a_patient_id a \<noteq> Some i) (appointments s))"
      by (intro key_survives_filter[where P = "\<lambda>(j, a). a_patient_id a = Some i"]) auto
    then show "k \<in> fst ` set (appointments ?s)" by (simp add: delete_patient_def patient_appointments_def Let_def)
  qed
  from assms(1) 1 2 3 show ?thesis
    by (simp add: record_ok_def medical_records_not_null_def detach_cols)
qed

lemma delete_doctor_record_ok:
  assumes "record_ok s (snd row)" and "m_doctor_id (snd row) \<noteq> Some i"
  shows "record_ok (delete_doctor s i)
           (snd (detach (map fst (filter (\<lambda>(j, a). a_doctor_id a = Some i) (appointments s))) row))"
proof -
  let ?gone = "map fst (filter (\<lambda>(j, a). a_doctor_id a = Some i) (appointments s))"
  let ?s = "delete_doctor s i"
  from assms obtain p where p: "m_doctor_id (snd row) = Some p" "p \<noteq> i"
    by (auto simp: record_ok_def medical_records_not_null_def)
  from assms(1) p have 1: "references (m_doctor_id (snd row)) (doctors ?s)"
    by (simp add: record_ok_def delete_doctor_def doctor_appointments_def Let_def references_others)
  from assms(1) have 2: "references (m_patient_id (snd row)) (patients ?s)"
    by (simp add: record_ok_def delete_doctor_def doctor_appointments_def Let_def)
  have 3: "references (m_appointment_id (snd (detach ?gone row))) (appointments ?s)"
  proof (rule detached_reference)
    from assms(1) show "references (m_appointment_id (snd row)) (appointments s)"
      by (simp add: record_ok_def)
  next
    fix k assume "k \<in> fst ` set (appointments s)" "k \<notin> set ?gone"
    then have "k \<in> fst ` set (filter (\<lambda>(j, a). a_doctor_id a \<noteq> Some i) (appointments s))"
      by (intro key_survives_filter[where P = "\<lambda>(j, a). a_doctor_id a = Some i"]) auto
    then show "k \<in> fst ` set (appointments ?s)" by (simp add: delete_doctor_def doctor_appointments_def Let_def)
  qed
  from assms(1) 1 2 3 show ?thesis
    by (simp add: record_ok_def medical_records_not_null_def detach_cols)
qed

lemma delete_appointment_record_ok:
  assumes "record_ok s (snd row)"
  shows "record_ok (delete_appointment s i) (snd (detach [i] row))"
proof -
  let ?s = "delete_appointment s i"
  have 3: "references (m_appointment_id (snd (detach [i] row))) (appointments ?s)"
  proof (rule detached_reference)
    from assms(1) show "references (m_appointment_id (snd row)) (appointments s)"
      by (simp add: record_ok_def)
  next
    fix k assume "k \<in> fst ` set (appointments s)" "k \<notin> set [i]"
    then show "k \<in> fst ` set (appointments ?s)"
      by (simp add: delete_appointment_def keys_others)
  qed
  from assms 3 show ?thesis
    by (simp add: record_ok_def medical_records_not_null_def detach_cols delete_appointment_def)
qed

lemma exec_record_ok:
  assumes "exec s x = Inr s'" and "list_all (record_ok s \<circ> snd) (medical_records s)"
  shows "list_all (record_ok s' \<circ> snd) (medical_records s')"
proof (cases x)
  case (RegisterPatient p)
  with assms(1) have "s' = s\<lparr>patients := patients s @ [(next_patient_id s, p)],
                  next_patient_id := Suc (next_patient_id s)\<rparr>"
    by (auto simp: committed_def register_patient_def split: if_splits)
  then show ?thesis by (intro records_ok_mono[OF assms(2)]) auto
next
  case (RegisterDoctor d)
  with assms(1) have "s' = s\<lparr>doctors := doctors s @ [(next_doctor_id s, d)],
                  next_doctor_id := Suc (next_doctor_id s)\<rparr>"
    by (auto simp: committed_def register_doctor_def split: if_splits)
  then show ?thesis by (intro records_ok_mono[OF assms(2)]) auto
next
  case (UpdatePatient i p)
  with assms(1) have "s' = s\<lparr>patients := put_row i p (patients s)\<rparr>"
    by (auto simp: update_patient_def split: if_splits)
  then show ?thesis by (intro records_ok_mono[OF assms(2)]) (simp_all add: key_set_put_row)
next
  case (UpdateDoctor i d)
  with assms(1) have "s' = s\<lparr>doctors := put_row i d (doctors s)\<rparr>"
    by (auto simp: update_doctor_def split: if_splits)
  then show ?thesis by (intro records_ok_mono[OF assms(2)]) (simp_all add: key_set_put_row)
next
  case (Book pid did dt tm why)
  with assms(1) obtain i a where b: "book s pid did dt tm why = Inr (s', i, a)"
    by (auto simp: committed_def split: sum.splits)
  from book_Inr(3)[OF b] show ?thesis by (intro records_ok_mono[OF assms(2)]) auto
next
  case (Transition i st)
  with assms(1) have "s' = s\<lparr>appointments := map (set_status i st) (appointments s)\<rparr>"
    by (auto simp: transition_def split: if_splits)
  then show ?thesis
    by (intro records_ok_mono[OF assms(2)]) (simp_all add: key_set_set_status del: set_map)
next
  case (Cancel i)
  with assms(1) have "s' = s\<lparr>appointments := map (set_status i Cancelled) (appointments s)\<rparr>"
    by (auto simp: cancel_def transition_def split: if_splits)
  then show ?thesis
    by (intro records_ok_mono[OF assms(2)]) (simp_all add: key_set_set_status del: set_map)
next
  case (CreateMedicalRecord m)
  with assms(1) obtain j m' where "create_medical_record s m = Inr (s', j, m')"
    by (auto simp: committed_def split: sum.splits)
  from create_medical_record_ok[OF this assms(2)] show ?thesis .
next
  case (CreateFromAppointment i diag presc nts dt)
  with assms(1) obtain j m' m where "create_medical_record s m = Inr (s', j, m')"
    by (auto simp: committed_def create_from_appointment_def split: sum.splits option.splits)
  from create_medical_record_ok[OF this assms(2)] show ?thesis .
next
  case (DeletePatient i)
  with assms(1) have s': "s' = delete_patient s i" by simp
  show ?thesis unfolding list_all_iff s'
  proof
    fix row' assume "row' \<in> set (medical_records (delete_patient s i))"
    then obtain row where r: "row \<in> set (medical_records s)" "m_patient_id (snd row) \<noteq> Some i"
      "row' = detach (map fst (filter (\<lambda>(j, a). a_patient_id a = Some i) (appointments s))) row"
      by (auto simp: delete_patient_def patient_appointments_def Let_def)
    from r(1) assms(2) have "record_ok s (snd row)" by (simp add: list_all_iff)
    from delete_patient_record_ok[OF this r(2)] r(3)
    show "(record_ok (delete_patient s i) \<circ> snd) row'" by simp
  qed
next
  case (DeleteDoctor i)
  with assms(1) have s': "s' = delete_doctor s i" by simp
  show ?thesis unfolding list_all_iff s'
  proof
    fix row' assume "row' \<in> set (medical_records (delete_doctor s i))"
    then obtain row where r: "row \<in> set (medical_records s)" "m_doctor_id (snd row) \<noteq> Some i"
      "row' = detach (map fst (filter (\<lambda>(j, a). a_doctor_id a = Some i) (appointments s))) row"
      by (auto simp: delete_doctor_def doctor_appointments_def Let_def)
    from r(1) assms(2) have "record_ok s (snd row)" by (simp add: list_all_iff)
    from delete_doctor_record_ok[OF this r(2)] r(3)
    show "(record_ok (delete_doctor s i) \<circ> snd) row'" by simp
  qed
next
  case (DeleteAppointment i)
  with assms(1) have s': "s' = delete_appointment s i" by simp
  show ?thesis unfolding list_all_iff s'
  proof
    fix row' assume "row' \<in> set (medical_records (delete_appointment s i))"
    then obtain row where r: "row \<in> set (medical_records s)" "row' = detach [i] row"
      by (auto simp: delete_appointment_def)
    from r(1) assms(2) have "record_ok s (snd row)" by (simp add: list_all_iff)
    from delete_appointment_record_ok[OF this] r(2)
    show "(record_ok (delete_appointment s i) \<circ> snd) row'" by simp
  qed
qed

lemma exec_consistent:
  assumes "exec s x = Inr s'" and "consistent s"
  shows "consistent s'"
  using assms exec_unique exec_appointment_ok exec_record_ok
  unfolding consistent_def by blast

lemma consistent_init: "consistent init_db"
  by (simp add: consistent_def init_db_def unique_doctor_timeslot_def slot_index_def)

lemma reachable_consistent: "reachable s \<Longrightarrow> consistent s"
  by (induction rule: reachable.induct) (auto intro: consistent_init exec_consistent)

lemma reachable_apply_op: "reachable s \<Longrightarrow> reachable (apply_op s x)"
  by (auto simp: apply_op_def split: sum.splits intro: reachable.step)

lemma reachable_foldl: "reachable s \<Longrightarrow> reachable (foldl apply_op s xs)"
  by (induction xs arbitrary: s) (auto intro: reachable_apply_op)

lemma reachable_run: "reachable (run init_db xs)"
  unfolding run_def by (rule reachable_foldl[OF reachable.start])






lemma distinct_map_count:
  "distinct (map f xs) \<Longrightarrow> length (filter (\<lambda>x. f x = k) xs) \<le> 1"
proof (induction xs)
  case Nil
  then show ?case by simp
next
  case (Cons x xs)
  show ?case
  proof (cases "f x = k")
    case True
    with Cons.prems have "k \<notin> f ` set xs" by simp
    then have "\<forall>y \<in> set xs. f y \<noteq> k" by blast
    then have "filter (\<lambda>x. f x = k) xs = []" by (simp add: filter_empty_conv)
    with True show ?thesis by simp
  next
    case False
    with Cons show ?thesis by simp
  qed
qed

lemma length_filter_conj_le:
  "length (filter (\<lambda>x. P x \<and> Q x) xs) \<le> length (filter P xs)"
  by (induction xs) auto


lemma detach_eq:
  "detach gone (j, m) =
     (j, if m_appointment_id m \<in> Some ` set gone then m\<lparr>m_appointment_id := None\<rparr> else m)"
  by (auto simp: detach_def split: option.splits)

lemma delete_patient_tables:
  "appointments (delete_patient s i) = filter (\<lambda>(j, a). a_patient_id a \<noteq> Some i) (appointments s)"
  "medical_records (delete_patient s i) =
     map (detach (patient_appointments s i))
       (filter (\<lambda>(j, m). m_patient_id m \<noteq> Some i) (medical_records s))"
  by (simp_all add: delete_patient_def Let_def patient_appointments_def)

lemma delete_doctor_tables:
  "appointments (delete_doctor s i) = filter (\<lambda>(j, a). a_doctor_id a \<noteq> Some i) (appointments s)"
  "medical_records (delete_doctor s i) =
     map (detach (doctor_appointments s i))
       (filter (\<lambda>(j, m). m_doctor_id m \<noteq> Some i) (medical_records s))"
  by (simp_all add: delete_doctor_def Let_def doctor_appointments_def)

lemma released_slot:
  assumes "distinct (slot_index rows)" and "(j, a) \<in> set rows" and "\<not> P (j, a)"
  shows "slot_of a \<notin> set (slot_index (filter P rows))"
proof
  assume "slot_of a \<in> set (slot_index (filter P rows))"
  then obtain row where r: "row \<in> set rows" "P row" "slot_of (snd row) = slot_of a"
    by (auto simp: slot_index_def)
  from assms(1) have "inj_on (slot_of \<circ> snd) (set rows)"
    by (simp add: slot_index_def distinct_map)
  moreover from r(3) have "(slot_of \<circ> snd) row = (slot_of \<circ> snd) (j, a)" by simp
  ultimately have "row = (j, a)" using r(1) assms(2) by (rule inj_onD)
  with r(2) assms(3) show False by simp
qed

lemma detached_in_table:
  assumes "(j, m) \<in> set rows" and "P (j, m)"
  shows "(j, if m_appointment_id m \<in> Some ` set gone then m\<lparr>m_appointment_id := None\<rparr> else m)
           \<in> set (map (detach gone) (filter P rows))"
proof -
  from assms have "detach gone (j, m) \<in> set (map (detach gone) (filter P rows))" by force
  then show ?thesis by (simp only: detach_eq)
qed

lemma delete_patient_cascade:
  "(\<forall>(j, a) \<in> set (appointments (delete_patient s i)). a_patient_id a \<noteq> Some i) \<and>
   (\<forall>(j, a) \<in> set (appointments s).
      a_patient_id a \<noteq> Some i \<longrightarrow> (j, a) \<in> set (appointments (delete_patient s i))) \<and>
   (unique_doctor_timeslot (appointments s) \<longrightarrow>
      (\<forall>(j, a) \<in> set (appointments s).
         a_patient_id a = Some i \<longrightarrow> slot_of a \<notin> set (slot_ledger (delete_patient s i)))) \<and>
   (\<forall>(j, m) \<in> set (medical_records (delete_patient s i)). m_patient_id m \<noteq> Some i) \<and>
   (\<forall>(j, m) \<in> set (medical_records s).
      m_patient_id m \<noteq> Some i \<longrightarrow>
      (j, if m_appointment_id m \<in> Some ` set (patient_appointments s i)
          then m\<lparr>m_appointment_id := None\<rparr> else m) \<in> set (medical_records (delete_patient s i)))"
proof (intro conjI impI)
  show "\<forall>(j, a) \<in> set (appointments (delete_patient s i)). a_patient_id a \<noteq> Some i"
    by (auto simp: delete_patient_tables)
  show "\<forall>(j, a) \<in> set (appointments s).
      a_patient_id a \<noteq> Some i \<longrightarrow> (j, a) \<in> set (appointments (delete_patient s i))"
    by (auto simp: delete_patient_tables)
  show "\<forall>(j, m) \<in> set (medical_records (delete_patient s i)). m_patient_id m \<noteq> Some i"
    by (auto simp: delete_patient_tables detach_eq)
  show "\<forall>(j, m) \<in> set (medical_records s).
      m_patient_id m \<noteq> Some i \<longrightarrow>
      (j, if m_appointment_id m \<in> Some ` set (patient_appointments s i)
          then m\<lparr>m_appointment_id := None\<rparr> else m) \<in> set (medical_records (delete_patient s i))"
    unfolding delete_patient_tables
    by (intro ballI, clarify, rule detached_in_table) auto
next
  assume "unique_doctor_timeslot (appointments s)"
  then have d: "distinct (slot_index (appointments s))" by (simp add: unique_doctor_timeslot_def)
  have "slot_of a \<notin> set (slot_index (filter (\<lambda>(j, a). a_patient_id a \<noteq> Some i) (appointments s)))"
    if "(j, a) \<in> set (appointments s)" and "a_patient_id a = Some i" for j a
    by (rule released_slot[OF d that(1)]) (simp add: that(2))
  then show "\<forall>(j, a) \<in> set (appointments s).
         a_patient_id a = Some i \<longrightarrow> slot_of a \<notin> set (slot_ledger (delete_patient s i))"
    unfolding slot_ledger_def delete_patient_tables by blast
qed

lemma delete_doctor_cascade:
  "(\<forall>(j, a) \<in> set (appointments (delete_doctor s i)). a_doctor_id a \<noteq> Some i) \<and>
   (\<forall>(j, a) \<in> set (appointments s).
      a_doctor_id a \<noteq> Some i \<longrightarrow> (j, a) \<in> set (appointments (delete_doctor s i))) \<and>
   (unique_doctor_timeslot (appointments s) \<longrightarrow>
      (\<forall>(j, a) \<in> set (appointments s).
         a_doctor_id a = Some i \<longrightarrow> slot_of a \<notin> set (slot_ledger (delete_doctor s i)))) \<and>
   (\<forall>(j, m) \<in> set (medical_records (delete_doctor s i)). m_doctor_id m \<noteq> Some i) \<and>
   (\<forall>(j, m) \<in> set (medical_records s).
      m_doctor_id m \<noteq> Some i \<longrightarrow>
      (j, if m_appointment_id m \<in> Some ` set (doctor_appointments s i)
          then m\<lparr>m_appointment_id := None\<rparr> else m) \<in> set (medical_records (delete_doctor s i)))"
proof (intro conjI impI)
  show "\<forall>(j, a) \<in> set (appointments (delete_doctor s i)). a_doctor_id a \<noteq> Some i"
    by (auto simp: delete_doctor_tables)
  show "\<forall>(j, a) \<in> set (appointments s).
      a_doctor_id a \<noteq> Some i \<longrightarrow> (j, a) \<in> set (appointments (delete_doctor s i))"
    by (auto simp: delete_doctor_tables)
  show "\<forall>(j, m) \<in> set (medical_records (delete_doctor s i)). m_doctor_id m \<noteq> Some i"
    by (auto simp: delete_doctor_tables detach_eq)
  show "\<forall>(j, m) \<in> set (medical_records s).
      m_doctor_id m \<noteq> Some i \<longrightarrow>
      (j, if m_appointment_id m \<in> Some ` set (doctor_appointments s i)
          then m\<lparr>m_appointment_id := None\<rparr> else m) \<in> set (medical_records (delete_doctor s i))"
    unfolding delete_doctor_tables
    by (intro ballI, clarify, rule detached_in_table) auto
next
  assume "unique_doctor_timeslot (appointments s)"
  then have d: "distinct (slot_index (appointments s))" by (simp add: unique_doctor_timeslot_def)
  have "slot_of a \<notin> set (slot_index (filter (\<lambda>(j, a). a_doctor_id a \<noteq> Some i) (appointments s)))"
    if "(j, a) \<in> set (appointments s)" and "a_doctor_id a = Some i" for j a
    by (rule released_slot[OF d that(1)]) (simp add: that(2))
  then show "\<forall>(j, a) \<in> set (appointments s).
         a_doctor_id a = Some i \<longrightarrow> slot_of a \<notin> set (slot_ledger (delete_doctor s i))"
    unfolding slot_ledger_def delete_doctor_tables by blast
qed

lemma delete_appointment_detaches:
  "map fst (medical_records (delete_appointment s i)) = map fst (medical_records s) \<and>
   (\<forall>(j, m) \<in> set (medical_records s).
      (j, if m_appointment_id m = Some i then m\<lparr>m_appointment_id := None\<rparr> else m)
        \<in> set (medical_records (delete_appointment s i)))"
proof
  show "map fst (medical_records (delete_appointment s i)) = map fst (medical_records s)"
    by (simp add: delete_appointment_def fst_detach comp_def)
  have "(j, if m_appointment_id m = Some i then m\<lparr>m_appointment_id := None\<rparr> else m)
        \<in> set (map (detach [i]) (medical_records s))"
    if "(j, m) \<in> set (medical_records s)" for j m
    using detached_in_table[OF that, of "\<lambda>row. True" "[i]"] by simp
  moreover have "medical_records (delete_appointment s i) = map (detach [i]) (medical_records s)"
    by (simp add: delete_appointment_def)
  ultimately show "\<forall>(j, m) \<in> set (medical_records s).
      (j, if m_appointment_id m = Some i then m\<lparr>m_appointment_id := None\<rparr> else m)
        \<in> set (medical_records (delete_appointment s i))"
    by (simp only: split_paired_all case_prod_conv Ball_def) blast
qed






section \<open>The claims\<close>

text \<open>
  Claim C1, as the schema has it. In every reachable database at most one appointment holds
  a given slot (doctor, date, time), whatever its status; in particular at most one that is
  not Cancelled. The key \<^verbatim>\<open>unique_doctor_timeslot\<close> spans every row, so a Cancelled
  appointment occupies its slot like any other: a table holding a Cancelled and a Scheduled
  appointment for one slot violates the key.
\<close>

theorem slot_unique_any_status:
  assumes "reachable s"
  shows "unique_doctor_timeslot (appointments s) \<and>
         length (filter (\<lambda>row. slot_of (snd row) = k) (appointments s)) \<le> 1 \<and>
         length (filter (\<lambda>row. slot_of (snd row) = k \<and> status (snd row) \<noteq> Some Cancelled)
                   (appointments s)) \<le> 1"
proof -
  from reachable_consistent[OF assms] have u: "unique_doctor_timeslot (appointments s)"
    by (simp add: consistent_def)
  then have "distinct (map (\<lambda>row. slot_of (snd row)) (appointments s))"
    by (simp add: unique_doctor_timeslot_def slot_index_def comp_def)
  from distinct_map_count[OF this]
  have c: "length (filter (\<lambda>row. slot_of (snd row) = k) (appointments s)) \<le> 1" .
  have "length (filter (\<lambda>row. slot_of (snd row) = k \<and> status (snd row) \<noteq> Some Cancelled)
                   (appointments s)) \<le> length (filter (\<lambda>row. slot_of (snd row) = k) (appointments s))"
    by (rule length_filter_conj_le)
  with u c show ?thesis by simp
qed

theorem slot_unique_any_status_witness:
  "unique_doctor_timeslot (appointments (run init_db (booked @ [Cancel 1]))) \<and>
   length (filter (\<lambda>row. slot_of (snd row) = (Some 1, Some (2024, 3, 1), Some (9, 0, 0)))
             (appointments (run init_db (booked @ [Cancel 1])))) = 1 \<and>
   length (filter (\<lambda>row. slot_of (snd row) = (Some 1, Some (2024, 3, 1), Some (9, 0, 0)) \<and>
                          status (snd row) \<noteq> Some Cancelled)
             (appointments (run init_db (booked @ [Cancel 1])))) = 0"
  using slot_unique_any_status[OF reachable_run[of "booked @ [Cancel 1]"],
      of "(Some 1, Some (2024, 3, 1), Some (9, 0, 0))"]
  by (simp add: eval_defs)

theorem cancelled_slot_counterexample:
  "statuses (run init_db (booked @ [Cancel 1])) = [Some Cancelled] \<and>
   slot_ledger (run init_db (booked @ [Cancel 1])) = [slot_of visit] \<and>
   status visit = Some Scheduled \<and>
   \<not> unique_doctor_timeslot (appointments (run init_db (booked @ [Cancel 1])) @ [(2, visit)])"
  by (simp add: eval_defs)




text \<open>
  Claim C3, as the schema has it. Deleting a patient or a doctor \<open>i\<close> removes exactly the
  appointments that reference \<open>i\<close> and, the slot key being unique, frees their slots. It
  also removes every medical record whose own patient or doctor column is \<open>i\<close>
  (\<^verbatim>\<open>ON DELETE CASCADE\<close>, lines 62-63). A medical record that does not reference \<open>i\<close>
  stays, with its appointment reference cleared when it pointed at a removed appointment and
  unchanged otherwise. Deleting an appointment alone removes no medical record; the records
  that pointed at it stay with the reference cleared.
\<close>

theorem delete_cascades:
  "((\<forall>(j, a) \<in> set (appointments (delete_patient s i)). a_patient_id a \<noteq> Some i) \<and>
    (\<forall>(j, a) \<in> set (appointments s).
       a_patient_id a \<noteq> Some i \<longrightarrow> (j, a) \<in> set (appointments (delete_patient s i))) \<and>
    (unique_doctor_timeslot (appointments s) \<longrightarrow>
       (\<forall>(j, a) \<in> set (appointments s).
          a_patient_id a = Some i \<longrightarrow> slot_of a \<notin> set (slot_ledger (delete_patient s i)))) \<and>
    (\<forall>(j, m) \<in> set (medical_records (delete_patient s i)). m_patient_id m \<noteq> Some i) \<and>
    (\<forall>(j, m) \<in> set (medical_records s).
       m_patient_id m \<noteq> Some i \<longrightarrow>
       (j, if m_appointment_id m \<in> Some ` set (patient_appointments s i)
           then m\<lparr>m_appointment_id := None\<rparr> else m)
         \<in> set (medical_records (delete_patient s i)))) \<and>
   ((\<forall>(j, a) \<in> set (appointments (delete_doctor s i)). a_doctor_id a \<noteq> Some i) \<and>
    (\<forall>(j, a) \<in> set (appointments s).
       a_doctor_id a \<noteq> Some i \<longrightarrow> (j, a) \<in> set (appointments (delete_doctor s i))) \<and>
    (unique_doctor_timeslot (appointments s) \<longrightarrow>
       (\<forall>(j, a) \<in> set (appointments s).
          a_doctor_id a = Some i \<longrightarrow> slot_of a \<notin> set (slot_ledger (delete_doctor s i)))) \<and>
    (\<forall>(j, m) \<in> set (medical_records (delete_doctor s i)). m_doctor_id m \<noteq> Some i) \<and>
    (\<forall>(j, m) \<in> set (medical_records s).
       m_doctor_id m \<noteq> Some i \<longrightarrow>
       (j, if m_appointment_id m \<in> Some ` set (doctor_appointments s i)
           then m\<lparr>m_appointment_id := None\<rparr> else m)
         \<in> set (medical_records (delete_doctor s i)))) \<and>
   (map fst (medical_records (delete_appointment s i)) = map fst (medical_records s) \<and>
    (\<forall>(j, m) \<in> set (medical_records s).
       (j, if m_appointment_id m = Some i then m\<lparr>m_appointment_id := None\<rparr> else m)
         \<in> set (medical_records (delete_appointment s i))))"
  by (rule conjI[OF delete_patient_cascade conjI[OF delete_doctor_cascade
          delete_appointment_detaches]])

theorem delete_cascades_witness:
  "unique_doctor_timeslot (appointments (run init_db treated)) \<and>
   appointments (run init_db treated) = [(1, visit\<lparr>status := Some Completed\<rparr>)] \<and>
   medical_records (run init_db treated) = [(1, own_record), (2, second_opinion)] \<and>
   appointments (delete_patient (run init_db treated) 1) = [] \<and>
   slot_ledger (delete_patient (run init_db treated) 1) = [] \<and>
   medical_records (delete_patient (run init_db treated) 1)
     = [(2, second_opinion\<lparr>m_appointment_id := None\<rparr>)] \<and>
   appointments (delete_doctor (run init_db treated) 1) = [] \<and>
   medical_records (delete_doctor (run init_db treated) 1)
     = [(2, second_opinion\<lparr>m_appointment_id := None\<rparr>)] \<and>
   medical_records (delete_appointment (run init_db treated) 1)
     = [(1, own_record\<lparr>m_appointment_id := None\<rparr>),
        (2, second_opinion\<lparr>m_appointment_id := None\<rparr>)]"
  using delete_cascades[of "run init_db treated" 1]
  by (simp add: eval_defs)

theorem record_cascade_counterexample:
  "medical_records (run init_db (booked @ [Transition 1 Completed,
       CreateFromAppointment 1 (Some ''Angina'') None None (2024, 3, 1)])) = [(1, own_record)] \<and>
   exec (run init_db (booked @ [Transition 1 Completed,
       CreateFromAppointment 1 (Some ''Angina'') None None (2024, 3, 1)])) (DeletePatient 1)
     = Inr (run init_db (booked @ [Transition 1 Completed,
       CreateFromAppointment 1 (Some ''Angina'') None None (2024, 3, 1), DeletePatient 1])) \<and>
   medical_records (run init_db (booked @ [Transition 1 Completed,
       CreateFromAppointment 1 (Some ''Angina'') None None (2024, 3, 1), DeletePatient 1])) = []"
  by (simp add: eval_defs)

text \<open>
  Claim C4, as the schema has it. The status column is an enumeration without a lifecycle:
  for an appointment in any status, Completed, Cancelled and No-show included, and any
  requested status, the update succeeds, the appointment then has the requested status, and
  the slot index is untouched. No update fails with \<open>InvalidTransition\<close>.
\<close>

theorem transition_unrestricted:
  assumes "(i, a) \<in> set (appointments s)"
  shows "\<exists>s'. transition s i st = Inr s' \<and>
           (i, a\<lparr>status := Some st\<rparr>) \<in> set (appointments s') \<and>
           (\<forall>(j, b) \<in> set (appointments s'). j = i \<longrightarrow> status b = Some st) \<and>
           slot_ledger s' = slot_ledger s"
proof -
  from assms have k: "i \<in> set (map fst (appointments s))" by force
  let ?s = "s\<lparr>appointments := map (set_status i st) (appointments s)\<rparr>"
  have 1: "transition s i st = Inr ?s" using k by (simp add: transition_def)
  have "set_status i st (i, a) = (i, a\<lparr>status := Some st\<rparr>)" by (simp add: set_status_def)
  with assms have 2: "(i, a\<lparr>status := Some st\<rparr>) \<in> set (appointments ?s)" by force
  have 3: "\<forall>(j, b) \<in> set (appointments ?s). j = i \<longrightarrow> status b = Some st"
    by (auto simp: set_status_def split: if_splits)
  have 4: "slot_ledger ?s = slot_ledger s" by (simp add: slot_ledger_def slot_index_set_status)
  from 1 2 3 4 show ?thesis by blast
qed

theorem transition_unrestricted_witness:
  "(1, visit\<lparr>status := Some Completed\<rparr>)
     \<in> set (appointments (run init_db (booked @ [Transition 1 Completed]))) \<and>
   transition (run init_db (booked @ [Transition 1 Completed])) 1 Scheduled
     = Inr (run init_db (booked @ [Transition 1 Completed, Transition 1 Scheduled])) \<and>
   appointments (run init_db (booked @ [Transition 1 Completed, Transition 1 Scheduled]))
     = [(1, visit)]"
  using transition_unrestricted[where s = "run init_db (booked @ [Transition 1 Completed])"
      and i = 1 and a = "visit\<lparr>status := Some Completed\<rparr>" and st = Scheduled]
  by (simp add: eval_defs)

theorem terminal_status_counterexample:
  "statuses (run init_db (booked @ [Transition 1 Completed])) = [Some Completed] \<and>
   exec (run init_db (booked @ [Transition 1 Completed])) (Transition 1 Scheduled)
     \<noteq> Inl InvalidTransition \<and>
   statuses (apply_op (run init_db (booked @ [Transition 1 Completed])) (Transition 1 Scheduled))
     = [Some Scheduled]"
  by (simp add: eval_defs)










text \<open>
  Claim C9. In every reachable database, so after any sequence of operations including the
  deletion of appointments and the detachment it causes, every medical record has a patient
  reference that is present and names an existing patient, a doctor reference that is
  present and names an existing doctor, and a record date; its appointment reference is
  either absent or names an existing appointment.
\<close>

theorem medical_record_references:
  assumes "reachable s"
  shows "\<forall>(j, m) \<in> set (medical_records s).
           (\<exists>p. m_patient_id m = Some p \<and> p \<in> fst ` set (patients s)) \<and>
           (\<exists>d. m_doctor_id m = Some d \<and> d \<in> fst ` set (doctors s)) \<and>
           (\<exists>dt. record_date m = Some dt) \<and>
           (m_appointment_id m = None \<or>
            (\<exists>k. m_appointment_id m = Some k \<and> k \<in> fst ` set (appointments s)))"
proof (intro ballI, clarify)
  fix j m assume "(j, m) \<in> set (medical_records s)"
  with reachable_consistent[OF assms] have "record_ok s m"
    by (auto simp: consistent_def list_all_iff)
  then show "(\<exists>p. m_patient_id m = Some p \<and> p \<in> fst ` set (patients s)) \<and>
           (\<exists>d. m_doctor_id m = Some d \<and> d \<in> fst ` set (doctors s)) \<and>
           (\<exists>dt. record_date m = Some dt) \<and>
           (m_appointment_id m = None \<or>
            (\<exists>k. m_appointment_id m = Some k \<and> k \<in> fst ` set (appointments s)))"
    by (auto simp: record_ok_def medical_records_not_null_def references_def split: option.splits)
qed

theorem medical_record_references_witness:
  "medical_records (run init_db (treated @ [DeleteAppointment 1]))
     = [(1, own_record\<lparr>m_appointment_id := None\<rparr>),
        (2, second_opinion\<lparr>m_appointment_id := None\<rparr>)] \<and>
   map fst (patients (run init_db (treated @ [DeleteAppointment 1]))) = [1, 2] \<and>
   map fst (doctors (run init_db (treated @ [DeleteAppointment 1]))) = [1, 2] \<and>
   appointments (run init_db (treated @ [DeleteAppointment 1])) = [] \<and>
   m_patient_id own_record = Some 1 \<and> m_doctor_id own_record = Some 1 \<and>
   record_date own_record = Some (2024, 3, 1) \<and>
   m_patient_id second_opinion = Some 2 \<and> m_doctor_id second_opinion = Some 2 \<and>
   record_date second_opinion = Some (2024, 3, 2)"
  using medical_record_references[OF reachable_run[of "treated @ [DeleteAppointment 1]"]]
  by (simp add: eval_defs)



end
